theory Spec2Isabelle
  imports Complex_Main "HOL-Library.Multiset"
begin

text \<open>
  A model of the location server: \<open>API/server.js\<close> (the schema of a report, the three
  handlers of the HTTP interface and the broadcast to the sockets) and \<open>db.js\<close> (the
  two tables and the view). What the server takes from its libraries and from the
  database is written out where it is used.
\<close>

section \<open>JavaScript values used by the server\<close>

text \<open>
  A JavaScript number is a finite value, one of the two infinities, or NaN. Finite values
  are kept as exact rationals: a number is identified with the decimal it prints as, which
  is also the text that reaches the database. Rounding of the mantissa to 53 bits is not
  part of the model; overflow to an infinity and underflow to zero are.
\<close>

datatype jsnum = Fin rat | PosInf | NegInf | NaN

text \<open>Strings are lists of code units below 256.\<close>

datatype json =
    JNull
  | JBool bool
  | JNum jsnum
  | JStr string
  | JArr "json list"
  | JObj "(string \<times> json) list"

text \<open>
  A value of \<open>req.query\<close> as the query-string parser of the framework builds it: a
  string, an array (\<open>?limit=1&limit=2\<close>) or a nested object (\<open>?limit[a]=1\<close>).
  An absent parameter is \<open>undefined\<close>, written \<open>None\<close>.
\<close>

datatype qs_value =
    QString string
  | QArray "qs_value list"
  | QObject "(string \<times> qs_value) list"

subsection \<open>\<open>Number(...)\<close> on a string\<close>

definition is_ws :: "char \<Rightarrow> bool" where
  "is_ws c = (of_char c \<in> {9, 10, 11, 12, 13, 32, 160 :: nat})"

definition is_digit :: "char \<Rightarrow> bool" where
  "is_digit c = (48 \<le> (of_char c :: nat) \<and> (of_char c :: nat) \<le> 57)"

definition trim :: "string \<Rightarrow> string" where
  "trim s = rev (dropWhile is_ws (rev (dropWhile is_ws s)))"

text \<open>The value of a digit in a base up to sixteen, if the character is one.\<close>

definition digit_in :: "nat \<Rightarrow> char \<Rightarrow> nat option" where
  "digit_in b c =
     (let n = (of_char c :: nat);
          v = (if 48 \<le> n \<and> n \<le> 57 then Some (n - 48)
               else if 97 \<le> n \<and> n \<le> 102 then Some (n - 87)
               else if 65 \<le> n \<and> n \<le> 70 then Some (n - 55)
               else None)
      in case v of None \<Rightarrow> None | Some d \<Rightarrow> if d < b then Some d else None)"

fun digits_value :: "nat \<Rightarrow> nat \<Rightarrow> string \<Rightarrow> nat option" where
  "digits_value b acc [] = Some acc"
| "digits_value b acc (c # cs) =
     (case digit_in b c of None \<Rightarrow> None | Some d \<Rightarrow> digits_value b (acc * b + d) cs)"

text \<open>One or more digits of the base, as a natural number.\<close>

definition numeral_in :: "nat \<Rightarrow> string \<Rightarrow> nat option" where
  "numeral_in b s = (if s = [] then None else digits_value b 0 s)"

text \<open>The exponent part after the mantissa: empty, or \<open>e\<close>/\<open>E\<close>, a sign, digits.\<close>

definition ExponentPart :: "string \<Rightarrow> int option" where
  "ExponentPart s =
     (case s of
        [] \<Rightarrow> Some 0
      | c # r \<Rightarrow>
          if c = CHR ''e'' \<or> c = CHR ''E'' then
            (case r of
               [] \<Rightarrow> None
             | d # t \<Rightarrow>
                 if d = CHR ''-'' then map_option (\<lambda>n. - int n) (numeral_in 10 t)
                 else if d = CHR ''+'' then map_option int (numeral_in 10 t)
                 else map_option int (numeral_in 10 r))
          else None)"

definition scale10 :: "rat \<Rightarrow> int \<Rightarrow> rat" where
  "scale10 x e = (if 0 \<le> e then x * 10 ^ nat e else x / 10 ^ nat (- e))"

text \<open>
  \<open>StrUnsignedDecimalLiteral\<close> without \<open>Infinity\<close>: digits, an optional fraction, an
  optional exponent, with at least one digit before or after the point.
\<close>

definition StrUnsignedDecimalLiteral :: "string \<Rightarrow> rat option" where
  "StrUnsignedDecimalLiteral s =
     (let ip = takeWhile is_digit s;
          r1 = dropWhile is_digit s;
          fp = (case r1 of [] \<Rightarrow> [] | c # t \<Rightarrow> if c = CHR ''.'' then takeWhile is_digit t else []);
          r2 = (case r1 of [] \<Rightarrow> [] | c # t \<Rightarrow> if c = CHR ''.'' then dropWhile is_digit t else r1)
      in if ip = [] \<and> fp = [] then None
         else (case (digits_value 10 0 ip, digits_value 10 0 fp, ExponentPart r2) of
                 (Some i, Some f, Some e) \<Rightarrow>
                   Some (scale10 (of_nat i + of_nat f / 10 ^ length fp) e)
               | _ \<Rightarrow> None))"

definition StrDecimalLiteral :: "string \<Rightarrow> jsnum option" where
  "StrDecimalLiteral s =
     (let neg = (case s of [] \<Rightarrow> False | c # _ \<Rightarrow> c = CHR ''-'');
          r = (case s of [] \<Rightarrow> [] | c # t \<Rightarrow> if c = CHR ''-'' \<or> c = CHR ''+'' then t else s)
      in if r = ''Infinity'' then Some (if neg then NegInf else PosInf)
         else map_option (\<lambda>x. Fin (if neg then - x else x)) (StrUnsignedDecimalLiteral r))"

text \<open>\<open>0x\<close>, \<open>0o\<close> and \<open>0b\<close> literals: no sign, at least one digit.\<close>

definition NonDecimalIntegerLiteral :: "string \<Rightarrow> jsnum option" where
  "NonDecimalIntegerLiteral s =
     (case s of
        z # p # ds \<Rightarrow>
          if z \<noteq> CHR ''0'' then None
          else if p = CHR ''x'' \<or> p = CHR ''X'' then map_option (\<lambda>n. Fin (of_nat n)) (numeral_in 16 ds)
          else if p = CHR ''o'' \<or> p = CHR ''O'' then map_option (\<lambda>n. Fin (of_nat n)) (numeral_in 8 ds)
          else if p = CHR ''b'' \<or> p = CHR ''B'' then map_option (\<lambda>n. Fin (of_nat n)) (numeral_in 2 ds)
          else None
      | _ \<Rightarrow> None)"

text \<open>
  The range of a double: a magnitude of at least \<open>2^1024 - 2^970\<close> rounds to an
  infinity, one of at most \<open>2^-1075\<close> rounds to zero.
\<close>

definition to_double :: "jsnum \<Rightarrow> jsnum" where
  "to_double n =
     (case n of
        Fin x \<Rightarrow>
          if 2 ^ 1024 - 2 ^ 970 \<le> x then PosInf
          else if x \<le> - (2 ^ 1024 - 2 ^ 970) then NegInf
          else if \<bar>x\<bar> * 2 ^ 1075 \<le> 1 then Fin 0
          else Fin x
      | _ \<Rightarrow> n)"

definition js_Number :: "string \<Rightarrow> jsnum" where
  "js_Number s =
     (let t = trim s
      in if t = [] then Fin 0
         else (case NonDecimalIntegerLiteral t of
                 Some n \<Rightarrow> to_double n
               | None \<Rightarrow> (case StrDecimalLiteral t of Some n \<Rightarrow> to_double n | None \<Rightarrow> NaN)))"

text \<open>\<open>!x\<close> on a number: zero and NaN are falsy.\<close>

definition falsy :: "jsnum \<Rightarrow> bool" where
  "falsy n = (n = Fin 0 \<or> n = NaN)"

text \<open>\<open>Math.min(a, b)\<close>: NaN if either argument is NaN.\<close>

fun Math_min :: "jsnum \<Rightarrow> jsnum \<Rightarrow> jsnum" where
  "Math_min NaN _ = NaN"
| "Math_min _ NaN = NaN"
| "Math_min NegInf _ = NegInf"
| "Math_min _ NegInf = NegInf"
| "Math_min PosInf b = b"
| "Math_min a PosInf = a"
| "Math_min (Fin x) (Fin y) = Fin (min x y)"

text \<open>
  \<open>String(v)\<close> on a query value: an array joins the strings of its elements with
  commas, an object prints as \<open>[object Object]\<close>.
\<close>

fun join_comma :: "string list \<Rightarrow> string" where
  "join_comma [] = []"
| "join_comma [s] = s"
| "join_comma (s # ss) = s @ '','' @ join_comma ss"

fun js_String :: "qs_value \<Rightarrow> string" where
  "js_String (QString s) = s"
| "js_String (QArray vs) = join_comma (map js_String vs)"
| "js_String (QObject kvs) = ''[object Object]''"

text \<open>
  \<open>Number(v || 500)\<close>: undefined and the empty string are falsy and give 500, any
  other value is converted through its string.
\<close>

definition Number_or_500 :: "qs_value option \<Rightarrow> jsnum" where
  "Number_or_500 v =
     (case v of
        None \<Rightarrow> Fin 500
      | Some (QString s) \<Rightarrow> if s = [] then Fin 500 else js_Number s
      | Some q \<Rightarrow> js_Number (js_String q))"


section \<open>The report schema (\<open>locationSchema\<close>)\<close>

text \<open>
  \<open>server.js\<close>, lines 76 to 82, and the call \<open>locationSchema.validate(req.body)\<close> in
  line 136. The schema is checked by the validation library. Two of the library's tests on strings
  are taken as parameters: the conversion of a string to a number (\<open>None\<close> when the
  library refuses the string), and the test for an ISO 8601 date. Everything proved below
  holds for any behaviour of the two.
\<close>

record joi_lib =
  number_coerce :: "string \<Rightarrow> jsnum option"
  isoDate :: "string \<Rightarrow> bool"

datatype gps = On | Off

record position =
  employee_id :: int
  latitude :: rat
  longitude :: rat
  gps_status :: gps

text \<open>The validated \<open>value\<close> of a report.\<close>

record report = position +
  timestamp :: "string option"

datatype joi_error =
    ObjectBase
  | AnyRequired string
  | NumberBase string
  | NumberInfinity string
  | NumberUnsafe string
  | NumberInteger string
  | NumberMin string
  | NumberMax string
  | AnyOnly string
  | StringBase string
  | StringEmpty string
  | StringIsoDate string
  | ObjectUnknown string

text \<open>
  \<open>Joi.number().required()\<close>: a missing key is an error, a string is converted, an
  infinity, NaN and a magnitude above \<open>2^53 - 1\<close> are refused. A string that the
  library refuses is answered with one label here; the library has two, and the response
  is status 400 under either.
\<close>

definition joi_number :: "joi_lib \<Rightarrow> string \<Rightarrow> json option \<Rightarrow> joi_error + jsnum" where
  "joi_number lib key v =
     (case v of
        None \<Rightarrow> Inl (AnyRequired key)
      | Some (JNum n) \<Rightarrow> Inr n
      | Some (JStr s) \<Rightarrow>
          (case number_coerce lib s of None \<Rightarrow> Inl (NumberUnsafe key) | Some n \<Rightarrow> Inr n)
      | Some _ \<Rightarrow> Inl (NumberBase key))"

definition joi_number_base :: "string \<Rightarrow> jsnum \<Rightarrow> joi_error + rat" where
  "joi_number_base key n =
     (case n of
        Fin x \<Rightarrow> if 2 ^ 53 - 1 < \<bar>x\<bar> then Inl (NumberUnsafe key) else Inr x
      | NaN \<Rightarrow> Inl (NumberBase key)
      | _ \<Rightarrow> Inl (NumberInfinity key))"

text \<open>\<open>Joi.number().integer().min(1).required()\<close>\<close>

definition joi_employee_id :: "joi_lib \<Rightarrow> json option \<Rightarrow> joi_error + int" where
  "joi_employee_id lib v =
     (case joi_number lib ''employee_id'' v of
        Inl e \<Rightarrow> Inl e
      | Inr n \<Rightarrow>
          (case joi_number_base ''employee_id'' n of
             Inl e \<Rightarrow> Inl e
           | Inr x \<Rightarrow>
               if of_int \<lfloor>x\<rfloor> \<noteq> x then Inl (NumberInteger ''employee_id'')
               else if x < 1 then Inl (NumberMin ''employee_id'')
               else Inr \<lfloor>x\<rfloor>))"

text \<open>\<open>Joi.number().min(lo).max(hi).required()\<close>\<close>

definition joi_bounded :: "joi_lib \<Rightarrow> string \<Rightarrow> rat \<Rightarrow> rat \<Rightarrow> json option \<Rightarrow> joi_error + rat" where
  "joi_bounded lib key lo hi v =
     (case joi_number lib key v of
        Inl e \<Rightarrow> Inl e
      | Inr n \<Rightarrow>
          (case joi_number_base key n of
             Inl e \<Rightarrow> Inl e
           | Inr x \<Rightarrow>
               if x < lo then Inl (NumberMin key)
               else if hi < x then Inl (NumberMax key)
               else Inr x))"

text \<open>\<open>Joi.string().valid("on", "off").required()\<close>\<close>

definition joi_gps_status :: "json option \<Rightarrow> joi_error + gps" where
  "joi_gps_status v =
     (case v of
        None \<Rightarrow> Inl (AnyRequired ''gps_status'')
      | Some (JStr s) \<Rightarrow>
          if s = ''on'' then Inr On
          else if s = ''off'' then Inr Off
          else Inl (AnyOnly ''gps_status'')
      | Some _ \<Rightarrow> Inl (AnyOnly ''gps_status''))"

text \<open>
  \<open>Joi.string().isoDate().optional()\<close>. The value keeps the string as it was sent;
  the library puts its normalised form there, and the handler never reads it.
\<close>

definition joi_timestamp :: "joi_lib \<Rightarrow> json option \<Rightarrow> joi_error + string option" where
  "joi_timestamp lib v =
     (case v of
        None \<Rightarrow> Inr None
      | Some (JStr s) \<Rightarrow>
          if s = [] then Inl (StringEmpty ''timestamp'')
          else if isoDate lib s then Inr (Some s)
          else Inl (StringIsoDate ''timestamp'')
      | Some _ \<Rightarrow> Inl (StringBase ''timestamp''))"

definition schema_keys :: "string list" where
  "schema_keys = [''employee_id'', ''latitude'', ''longitude'', ''gps_status'', ''timestamp'']"

text \<open>
  \<open>locationSchema.validate(req.body)\<close> with the library's defaults: the keys of the
  schema are checked in their order and the first error is returned; then a key that the
  schema does not name is an error (unknown keys are not allowed, and not stripped).
\<close>

definition locationSchema_validate :: "joi_lib \<Rightarrow> json \<Rightarrow> joi_error + report" where
  "locationSchema_validate lib body =
     (case body of
        JObj kvs \<Rightarrow>
          (case joi_employee_id lib (map_of kvs ''employee_id'') of
             Inl e \<Rightarrow> Inl e
           | Inr emp \<Rightarrow>
          (case joi_bounded lib ''latitude'' (- 90) 90 (map_of kvs ''latitude'') of
             Inl e \<Rightarrow> Inl e
           | Inr lat \<Rightarrow>
          (case joi_bounded lib ''longitude'' (- 180) 180 (map_of kvs ''longitude'') of
             Inl e \<Rightarrow> Inl e
           | Inr lon \<Rightarrow>
          (case joi_gps_status (map_of kvs ''gps_status'') of
             Inl e \<Rightarrow> Inl e
           | Inr g \<Rightarrow>
          (case joi_timestamp lib (map_of kvs ''timestamp'') of
             Inl e \<Rightarrow> Inl e
           | Inr ts \<Rightarrow>
          (case filter (\<lambda>k. k \<notin> set schema_keys) (map fst kvs) of
             k # _ \<Rightarrow> Inl (ObjectUnknown k)
           | [] \<Rightarrow>
               Inr \<lparr>employee_id = emp, latitude = lat, longitude = lon, gps_status = g,
                    timestamp = ts\<rparr>))))))
      | _ \<Rightarrow> Inl ObjectBase)"


section \<open>The store (\<open>db.js\<close>)\<close>

text \<open>
  The tables of \<open>ensureSchema\<close>. Instants are milliseconds since the epoch. A row of \<open>employee_live_location\<close> and
  the payload that the server broadcasts have the same five fields. The \<open>id\<close> columns
  are left out: no statement of the server reads or writes them.
\<close>

record current_position = position +
  last_update :: nat

record history_record = position +
  recorded_at :: nat

record store =
  employee_live_location :: "current_position list"
  employee_location_history :: "history_record list"

datatype db_error = ConnectionError | OutOfRange | BadStatement

text \<open>\<open>NOW()\<close> in a \<open>TIMESTAMP\<close> column: the clock of the database, in whole seconds.\<close>

definition NOW :: "nat \<Rightarrow> nat" where
  "NOW clock = clock - clock mod 1000"

text \<open>
  Assignment to a column, in strict mode (the default of the database server, and the mode
  \<open>ensureSchema\<close> asks for): a value out of the column's range is an error. A
  \<open>DECIMAL(10,6)\<close> column rounds to six fractional digits, half away from zero.
\<close>

definition INT_column :: "int \<Rightarrow> db_error + int" where
  "INT_column n = (if - 2147483648 \<le> n \<and> n \<le> 2147483647 then Inr n else Inl OutOfRange)"

definition round6 :: "rat \<Rightarrow> rat" where
  "round6 x =
     (if 0 \<le> x then of_int \<lfloor>x * 1000000 + 1 / 2\<rfloor> / 1000000
      else - (of_int \<lfloor>- x * 1000000 + 1 / 2\<rfloor> / 1000000))"

definition DECIMAL_10_6 :: "rat \<Rightarrow> db_error + rat" where
  "DECIMAL_10_6 x = (if \<bar>round6 x\<bar> < 10000 then Inr (round6 x) else Inl OutOfRange)"

text \<open>
  \<open>INSERT ... ON DUPLICATE KEY UPDATE\<close> under the unique key \<open>uniq_emp\<close>: a row of
  the same employee has its four other columns overwritten, otherwise the row is added.
\<close>

definition on_duplicate_key_update ::
    "current_position \<Rightarrow> current_position list \<Rightarrow> current_position list" where
  "on_duplicate_key_update new rows =
     (if \<exists>r \<in> set rows. employee_id r = employee_id new
      then map (\<lambda>r. if employee_id r = employee_id new
                     then r\<lparr>latitude := latitude new, longitude := longitude new,
                            gps_status := gps_status new, last_update := last_update new\<rparr>
                     else r) rows
      else rows @ [new])"

section \<open>What the handlers receive from outside\<close>

text \<open>
  Every awaited call on the connection may reject; the clock of the database is read by
  each statement that calls \<open>NOW()\<close>, the clock of the server by \<open>new Date()\<close>; a
  socket in \<open>broken\<close> throws on \<open>send\<close>.
\<close>

type_synonym client = nat

record env =
  getConnection_fails :: bool
  beginTransaction_fails :: bool
  upsert_fails :: bool
  insert_fails :: bool
  commit_fails :: bool
  rollback_fails :: bool
  clock_upsert :: nat
  clock_insert :: nat
  clock_Date :: nat
  broken :: "client list"

record server =
  db :: store
  wss_clients :: "client list"

datatype sql =
    BeginTransaction
  | UpsertLive int rat rat gps
  | InsertHistory int rat rat gps
  | Commit
  | Rollback
  | SelectLatest
  | SelectHistory jsnum jsnum

datatype js_error = SendError

datatype ws_msg = Hello nat | Location current_position

datatype delivery = Delivered client ws_msg | Failed client ws_msg

datatype message = JoiMessage joi_error | Message string

datatype body =
    Failure message
  | LocationUpdated current_position
  | Locations "current_position list"
  | History "history_record list"

datatype http_response = Response nat body

record outcome =
  resp :: "http_response option"
  srv :: server
  sql_log :: "sql list"
  ws_log :: "delivery list"

section \<open>Broadcast\<close>

definition send :: "env \<Rightarrow> client \<Rightarrow> ws_msg \<Rightarrow> js_error + unit" where
  "send env c msg = (if c \<in> set (broken env) then Inl SendError else Inr ())"

text \<open>
  \<open>server.js\<close>, lines 267 to 274. \<open>forEach\<close>: an exception of the callback ends the
  loop and is thrown on.
\<close>

fun forEach :: "('a \<Rightarrow> 's \<Rightarrow> js_error + 's) \<Rightarrow> 'a list \<Rightarrow> 's \<Rightarrow> js_error + 's" where
  "forEach f [] s = Inr s"
| "forEach f (x # xs) s = (case f x s of Inl e \<Rightarrow> Inl e | Inr s' \<Rightarrow> forEach f xs s')"

text \<open>The callback of \<open>broadcast\<close>: \<open>try { c.send(msg) } catch {}\<close>.\<close>

definition try_send :: "env \<Rightarrow> ws_msg \<Rightarrow> client \<Rightarrow> delivery list \<Rightarrow> js_error + delivery list" where
  "try_send env msg c acc =
     (case send env c msg of
        Inr _ \<Rightarrow> Inr (acc @ [Delivered c msg])
      | Inl _ \<Rightarrow> Inr (acc @ [Failed c msg]))"

definition broadcast :: "env \<Rightarrow> client list \<Rightarrow> current_position \<Rightarrow> js_error + delivery list" where
  "broadcast env clients obj = forEach (try_send env (Location obj)) clients []"

text \<open>
  \<open>wss.on("connection", ...)\<close>: the socket is in \<open>wss.clients\<close> when the handler
  runs, and the handler sends the greeting with \<open>Date.now()\<close>.
\<close>

definition connection :: "nat \<Rightarrow> client \<Rightarrow> server \<Rightarrow> server \<times> delivery list" where
  "connection now c st =
     (st\<lparr>wss_clients := wss_clients st @ [c]\<rparr>, [Delivered c (Hello now)])"

section \<open>\<open>POST /api/location\<close>\<close>

text \<open>
  \<open>server.js\<close>, lines 135 to 181. The two statements of the transaction, each with its
  own \<open>NOW()\<close>.
\<close>

definition upsert_live :: "env \<Rightarrow> report \<Rightarrow> store \<Rightarrow> db_error + store" where
  "upsert_live env v d =
     (if upsert_fails env then Inl ConnectionError
      else (case (INT_column (employee_id v), DECIMAL_10_6 (latitude v), DECIMAL_10_6 (longitude v)) of
              (Inr e, Inr la, Inr lo) \<Rightarrow>
                Inr (d\<lparr>employee_live_location :=
                         on_duplicate_key_update
                           \<lparr>employee_id = e, latitude = la, longitude = lo,
                            gps_status = gps_status v, last_update = NOW (clock_upsert env)\<rparr>
                           (employee_live_location d)\<rparr>)
            | _ \<Rightarrow> Inl OutOfRange))"

definition insert_history :: "env \<Rightarrow> report \<Rightarrow> store \<Rightarrow> db_error + store" where
  "insert_history env v d =
     (if insert_fails env then Inl ConnectionError
      else (case (INT_column (employee_id v), DECIMAL_10_6 (latitude v), DECIMAL_10_6 (longitude v)) of
              (Inr e, Inr la, Inr lo) \<Rightarrow>
                Inr (d\<lparr>employee_location_history :=
                         employee_location_history d @
                           [\<lparr>employee_id = e, latitude = la, longitude = lo,
                             gps_status = gps_status v, recorded_at = NOW (clock_insert env)\<rparr>]\<rparr>)
            | _ \<Rightarrow> Inl OutOfRange))"

text \<open>
  The calls from \<open>beginTransaction\<close> to \<open>commit\<close>, with the statements sent so
  far. The writes are made on the connection's own view of the store and reach
  the store that readers see when \<open>commit\<close> succeeds.
\<close>

definition transaction :: "env \<Rightarrow> report \<Rightarrow> store \<Rightarrow> sql list \<times> (db_error + store)" where
  "transaction env v d =
     (let up = UpsertLive (employee_id v) (latitude v) (longitude v) (gps_status v);
          ins = InsertHistory (employee_id v) (latitude v) (longitude v) (gps_status v)
      in if beginTransaction_fails env then ([BeginTransaction], Inl ConnectionError)
         else (case upsert_live env v d of
                 Inl e \<Rightarrow> ([BeginTransaction, up], Inl e)
               | Inr d1 \<Rightarrow>
                   (case insert_history env v d1 of
                      Inl e \<Rightarrow> ([BeginTransaction, up, ins], Inl e)
                    | Inr d2 \<Rightarrow>
                        if commit_fails env
                        then ([BeginTransaction, up, ins, Commit], Inl ConnectionError)
                        else ([BeginTransaction, up, ins, Commit], Inr d2))))"

text \<open>
  The \<open>catch\<close> block: \<open>await conn.rollback()\<close>, then the response. When the rollback
  rejects, the handler's promise rejects and no response is written. A connection whose
  rollback failed is taken as lost: the database drops its open transaction, and the
  store that readers see is as before.
\<close>

definition catch_block :: "env \<Rightarrow> server \<Rightarrow> sql list \<Rightarrow> outcome" where
  "catch_block env st stmts =
     (if rollback_fails env
      then \<lparr>resp = None, srv = st, sql_log = stmts @ [Rollback], ws_log = []\<rparr>
      else \<lparr>resp = Some (Response 500 (Failure (Message ''Database error''))), srv = st,
            sql_log = stmts @ [Rollback], ws_log = []\<rparr>)"

definition post_location :: "joi_lib \<Rightarrow> env \<Rightarrow> json \<Rightarrow> server \<Rightarrow> outcome" where
  "post_location lib env req_body st =
     (case locationSchema_validate lib req_body of
        Inl error \<Rightarrow>
          \<lparr>resp = Some (Response 400 (Failure (JoiMessage error))), srv = st,
           sql_log = [], ws_log = []\<rparr>
      | Inr v \<Rightarrow>
          if getConnection_fails env
          then \<lparr>resp = None, srv = st, sql_log = [], ws_log = []\<rparr>
          else (case transaction env v (db st) of
                  (stmts, Inl e) \<Rightarrow> catch_block env st stmts
                | (stmts, Inr d) \<Rightarrow>
                    (let payload = \<lparr>employee_id = employee_id v, latitude = latitude v,
                                    longitude = longitude v, gps_status = gps_status v,
                                    last_update = clock_Date env\<rparr>
                     in case broadcast env (wss_clients st) payload of
                          Inl e \<Rightarrow> catch_block env (st\<lparr>db := d\<rparr>) stmts
                        | Inr sent \<Rightarrow>
                            \<lparr>resp = Some (Response 200 (LocationUpdated payload)),
                             srv = st\<lparr>db := d\<rparr>, sql_log = stmts, ws_log = sent\<rparr>)))"

section \<open>The reads\<close>

text \<open>
  \<open>server.js\<close>, lines 192 to 202 and 225 to 247.
  The answer of the database to a query is an input of the handler, and a predicate says
  which answers the store allows. Any query may fail. The view \<open>v_employee_latest\<close>
  passes \<open>employee_live_location\<close> through; the query has no \<open>ORDER BY\<close>, so the
  rows come in any order.
\<close>

definition select_latest :: "store \<Rightarrow> db_error + current_position list \<Rightarrow> bool" where
  "select_latest d answer =
     (case answer of
        Inl _ \<Rightarrow> True
      | Inr rows \<Rightarrow> mset rows = mset (employee_live_location d))"

definition get_locations :: "db_error + current_position list \<Rightarrow> http_response \<times> sql list" where
  "get_locations answer =
     (case answer of
        Inr rows \<Rightarrow> (Response 200 (Locations rows), [SelectLatest])
      | Inl e \<Rightarrow> (Response 500 (Failure (Message ''Database error'')), [SelectLatest]))"

text \<open>
  \<open>WHERE employee_id = ? ORDER BY recorded_at DESC LIMIT ?\<close>. The two parameters are
  written into the statement as the numbers print. An infinity prints as a name and the
  statement fails; the count after \<open>LIMIT\<close> must be a non-negative integer. The rows
  of the employee are returned newest first, at most the count of them; rows of the same
  \<open>recorded_at\<close> come in any order, so the rows left out are never newer than a row
  returned.
\<close>

definition newest_first :: "history_record list \<Rightarrow> bool" where
  "newest_first rows = sorted_wrt (\<lambda>a b. recorded_at b \<le> recorded_at a) rows"

definition select_history ::
    "store \<Rightarrow> jsnum \<Rightarrow> jsnum \<Rightarrow> db_error + history_record list \<Rightarrow> bool" where
  "select_history d emp cnt answer =
     (case answer of
        Inl _ \<Rightarrow> True
      | Inr rows \<Rightarrow>
          (case (emp, cnt) of
             (Fin e, Fin l) \<Rightarrow>
               (let matching = filter (\<lambda>r. of_int (employee_id r) = e) (employee_location_history d)
                in 0 \<le> l \<and> of_int \<lfloor>l\<rfloor> = l
                   \<and> newest_first rows
                   \<and> length rows = min (nat \<lfloor>l\<rfloor>) (length matching)
                   \<and> mset rows \<subseteq># mset matching
                   \<and> (\<forall>x \<in># mset matching - mset rows. \<forall>y \<in> set rows. recorded_at x \<le> recorded_at y))
           | _ \<Rightarrow> False))"

text \<open>\<open>Math.min(Number(req.query.limit || 500), 5000)\<close>\<close>

definition history_limit :: "qs_value option \<Rightarrow> jsnum" where
  "history_limit query_limit = Math_min (Number_or_500 query_limit) (Fin 5000)"

text \<open>
  \<open>GET /api/locations/:employee_id/history\<close>. The route parameter is a string; the
  guard is \<open>if (!employee_id)\<close>.
\<close>

definition get_history ::
    "string \<Rightarrow> qs_value option \<Rightarrow> db_error + history_record list \<Rightarrow> http_response \<times> sql list" where
  "get_history params_employee_id query_limit answer =
     (let employee_id = js_Number params_employee_id;
          limit = history_limit query_limit
      in if falsy employee_id
         then (Response 400 (Failure (Message ''Invalid employee_id'')), [])
         else (case answer of
                 Inr rows \<Rightarrow> (Response 200 (History rows), [SelectHistory employee_id limit])
               | Inl e \<Rightarrow>
                   (Response 500 (Failure (Message ''Database error'')),
                    [SelectHistory employee_id limit])))"

section \<open>Reachable states\<close>

text \<open>
  The server starts on the empty tables that \<open>ensureSchema\<close> creates; sockets connect
  and close (a closed socket leaves \<open>wss.clients\<close>); reports are posted.
\<close>

definition empty_store :: store where
  "empty_store = \<lparr>employee_live_location = [], employee_location_history = []\<rparr>"

inductive reachable :: "joi_lib \<Rightarrow> server \<Rightarrow> bool" for lib :: joi_lib where
  start: "reachable lib \<lparr>db = empty_store, wss_clients = []\<rparr>"
| connect: "reachable lib st \<Longrightarrow> reachable lib (fst (connection now c st))"
| close: "reachable lib st \<Longrightarrow> reachable lib (st\<lparr>wss_clients := removeAll c (wss_clients st)\<rparr>)"
| post: "reachable lib st \<Longrightarrow> reachable lib (srv (post_location lib env req_body st))"

section \<open>Notions used in the statements\<close>

text \<open>A number read from a report lies in a closed interval.\<close>

definition in_range :: "rat \<Rightarrow> rat \<Rightarrow> jsnum \<Rightarrow> bool" where
  "in_range lo hi n = (case n of Fin x \<Rightarrow> lo \<le> x \<and> x \<le> hi | _ \<Rightarrow> False)"

text \<open>
  The values of a report under the keys of the schema other than \<open>timestamp\<close>. Two
  reports that the schema accepts have no other keys, so they differ in \<open>timestamp\<close>
  only when these values are the same.
\<close>

definition other_fields :: "(string \<times> json) list \<Rightarrow> json option list" where
  "other_fields kvs =
     map (map_of kvs) [''employee_id'', ''latitude'', ''longitude'', ''gps_status'']"

text \<open>
  The row of \<open>employee_live_location\<close> and the row of
  \<open>employee_location_history\<close> that a validated report becomes at an instant, and
  the payload the server builds from it.
\<close>

definition stored :: "report \<Rightarrow> nat \<Rightarrow> current_position" where
  "stored v t = \<lparr>employee_id = employee_id v, latitude = round6 (latitude v),
                 longitude = round6 (longitude v), gps_status = gps_status v, last_update = t\<rparr>"

definition logged :: "report \<Rightarrow> nat \<Rightarrow> history_record" where
  "logged v t = \<lparr>employee_id = employee_id v, latitude = round6 (latitude v),
                 longitude = round6 (longitude v), gps_status = gps_status v, recorded_at = t\<rparr>"

definition payload_of :: "env \<Rightarrow> report \<Rightarrow> current_position" where
  "payload_of env v = \<lparr>employee_id = employee_id v, latitude = latitude v,
      longitude = longitude v, gps_status = gps_status v, last_update = clock_Date env\<rparr>"

text \<open>
  The statements of a transaction that runs to its end, the store it leaves, and the
  conditions under which one of its four calls fails: a rejected call, or an employee
  number beyond the \<open>INT\<close> column.
\<close>

definition statements :: "report \<Rightarrow> sql list" where
  "statements v =
     [BeginTransaction,
      UpsertLive (employee_id v) (latitude v) (longitude v) (gps_status v),
      InsertHistory (employee_id v) (latitude v) (longitude v) (gps_status v),
      Commit]"

definition committed :: "env \<Rightarrow> report \<Rightarrow> store \<Rightarrow> store" where
  "committed env v d =
     \<lparr>employee_live_location =
        on_duplicate_key_update (stored v (NOW (clock_upsert env))) (employee_live_location d),
      employee_location_history =
        employee_location_history d @ [logged v (NOW (clock_insert env))]\<rparr>"

definition write_fails :: "env \<Rightarrow> report \<Rightarrow> bool" where
  "write_fails env v \<longleftrightarrow>
     beginTransaction_fails env \<or> upsert_fails env \<or> insert_fails env \<or> commit_fails env
     \<or> 2147483647 < employee_id v"

subsection \<open>Concrete inputs\<close>

text \<open>
  An instance of the library's two tests for the examples below: it converts no string
  to a number and accepts one date. The examples carry JSON numbers and that date only.
\<close>

definition sample_lib :: joi_lib where
  "sample_lib = \<lparr>number_coerce = (\<lambda>s. None), isoDate = (\<lambda>s. s = ''2024-05-01T10:00:00Z'')\<rparr>"

text \<open>No call fails, every clock reads five seconds, no socket is broken.\<close>

definition quiet :: env where
  "quiet = \<lparr>getConnection_fails = False, beginTransaction_fails = False, upsert_fails = False,
            insert_fails = False, commit_fails = False, rollback_fails = False,
            clock_upsert = 5000, clock_insert = 5000, clock_Date = 5000, broken = []\<rparr>"

text \<open>A report of employee 7, at latitude 12.5 and longitude 77.25.\<close>

definition fields7 :: "(string \<times> json) list" where
  "fields7 = [(''employee_id'', JNum (Fin 7)), (''latitude'', JNum (Fin (25 / 2))),
              (''longitude'', JNum (Fin (309 / 4))), (''gps_status'', JStr ''on'')]"

text \<open>Its validated value.\<close>

definition report7 :: report where
  "report7 = \<lparr>employee_id = 7, latitude = 25 / 2, longitude = 309 / 4, gps_status = On,
              timestamp = None\<rparr>"


text \<open>
  The same report with the receiver off, an environment whose clocks read nine seconds,
  one whose three clocks differ, and the state that the first report leaves.
\<close>

definition fields7_off :: "(string \<times> json) list" where
  "fields7_off = [(''employee_id'', JNum (Fin 7)), (''latitude'', JNum (Fin (25 / 2))),
              (''longitude'', JNum (Fin (309 / 4))), (''gps_status'', JStr ''off'')]"

definition report7_off :: report where
  "report7_off = report7\<lparr>gps_status := Off\<rparr>"

definition later :: env where
  "later = quiet\<lparr>clock_upsert := 9000, clock_insert := 9000, clock_Date := 9000\<rparr>"

definition after_first :: server where
  "after_first =
     \<lparr>db = \<lparr>employee_live_location =
               [\<lparr>employee_id = 7, latitude = 25 / 2, longitude = 309 / 4, gps_status = On,
                 last_update = 5000\<rparr>],
             employee_location_history =
               [\<lparr>employee_id = 7, latitude = 25 / 2, longitude = 309 / 4, gps_status = On,
                 recorded_at = 5000\<rparr>]\<rparr>,
      wss_clients = []\<rparr>"

definition three_clocks :: env where
  "three_clocks = quiet\<lparr>clock_upsert := 5900, clock_insert := 6100, clock_Date := 6250\<rparr>"

text \<open>A report whose latitude, 12.3456789, has seven fractional digits.\<close>

definition fields_fine :: "(string \<times> json) list" where
  "fields_fine = [(''employee_id'', JNum (Fin 7)), (''latitude'', JNum (Fin (123456789 / 10000000))),
              (''longitude'', JNum (Fin (309 / 4))), (''gps_status'', JStr ''on'')]"

definition report_fine :: report where
  "report_fine = report7\<lparr>latitude := 123456789 / 10000000\<rparr>"

text \<open>The server as it starts.\<close>

definition fresh :: server where
  "fresh = \<lparr>db = empty_store, wss_clients = []\<rparr>"

section \<open>Lemmas on the conversions\<close>

lemmas js_defs = js_Number_def trim_def is_ws_def NonDecimalIntegerLiteral_def
  StrDecimalLiteral_def StrUnsignedDecimalLiteral_def is_digit_def digit_in_def
  ExponentPart_def scale10_def to_double_def numeral_in_def


lemma floor_rat_numeral [simp]: "\<lfloor>numeral a / numeral b :: rat\<rfloor> = numeral a div numeral b"
  by (metis floor_divide_of_int_eq of_int_numeral)

lemma round6_bound:
  assumes "\<bar>x\<bar> \<le> 180"
  shows "\<bar>round6 x\<bar> < 10000"
proof -
  have a: "of_int \<lfloor>y\<rfloor> \<le> y" for y :: rat by simp
  have b: "0 \<le> y \<Longrightarrow> 0 \<le> (of_int \<lfloor>y\<rfloor> :: rat)" for y :: rat by simp
  show ?thesis
  proof (cases "0 \<le> x")
    case True
    have "(of_int \<lfloor>x * 1000000 + 1 / 2\<rfloor> :: rat) \<le> x * 1000000 + 1 / 2" by (rule a)
    moreover have "0 \<le> (of_int \<lfloor>x * 1000000 + 1 / 2\<rfloor> :: rat)" using True by (intro b) simp
    ultimately show ?thesis using True assms by (simp add: round6_def field_simps)
  next
    case False
    have "(of_int \<lfloor>- x * 1000000 + 1 / 2\<rfloor> :: rat) \<le> - x * 1000000 + 1 / 2" by (rule a)
    moreover have "0 \<le> (of_int \<lfloor>- x * 1000000 + 1 / 2\<rfloor> :: rat)" using False by (intro b) simp
    ultimately show ?thesis using False assms by (simp add: round6_def field_simps)
  qed
qed












section \<open>Lemmas on the schema\<close>

lemmas joi_defs = locationSchema_validate_def joi_employee_id_def joi_bounded_def joi_number_def
  joi_number_base_def joi_gps_status_def joi_timestamp_def schema_keys_def

lemma validate_Inl:
  "locationSchema_validate lib req_body = Inl e \<Longrightarrow>
   post_location lib env req_body st =
     \<lparr>resp = Some (Response 400 (Failure (JoiMessage e))), srv = st, sql_log = [], ws_log = []\<rparr>"
  by (simp add: post_location_def)

lemma joi_bounded_Inr:
  "joi_bounded lib key lo hi v = Inr x \<Longrightarrow> \<exists>n. joi_number lib key v = Inr n \<and> n = Fin x \<and> lo \<le> x \<and> x \<le> hi"
  by (auto simp: joi_bounded_def joi_number_base_def split: sum.splits jsnum.splits if_splits)

lemma validate_Inr:
  assumes "locationSchema_validate lib req_body = Inr v"
  obtains kvs where "req_body = JObj kvs"
    and "joi_employee_id lib (map_of kvs ''employee_id'') = Inr (employee_id v)"
    and "joi_bounded lib ''latitude'' (- 90) 90 (map_of kvs ''latitude'') = Inr (latitude v)"
    and "joi_bounded lib ''longitude'' (- 180) 180 (map_of kvs ''longitude'') = Inr (longitude v)"
    and "joi_gps_status (map_of kvs ''gps_status'') = Inr (gps_status v)"
    and "joi_timestamp lib (map_of kvs ''timestamp'') = Inr (timestamp v)"
    and "filter (\<lambda>k. k \<notin> set schema_keys) (map fst kvs) = []"
proof -
  obtain kvs where b: "req_body = JObj kvs"
    using assms by (cases req_body) (simp_all add: locationSchema_validate_def)
  note a = assms[unfolded b locationSchema_validate_def, simplified]
  obtain emp where 1: "joi_employee_id lib (map_of kvs ''employee_id'') = Inr emp"
    using a by (cases "joi_employee_id lib (map_of kvs ''employee_id'')") simp_all
  obtain lat where 2: "joi_bounded lib ''latitude'' (- 90) 90 (map_of kvs ''latitude'') = Inr lat"
    using a 1 by (cases "joi_bounded lib ''latitude'' (- 90) 90 (map_of kvs ''latitude'')") simp_all
  obtain lon where 3: "joi_bounded lib ''longitude'' (- 180) 180 (map_of kvs ''longitude'') = Inr lon"
    using a 1 2 by (cases "joi_bounded lib ''longitude'' (- 180) 180 (map_of kvs ''longitude'')") simp_all
  obtain g where 4: "joi_gps_status (map_of kvs ''gps_status'') = Inr g"
    using a 1 2 3 by (cases "joi_gps_status (map_of kvs ''gps_status'')") simp_all
  obtain ts where 5: "joi_timestamp lib (map_of kvs ''timestamp'') = Inr ts"
    using a 1 2 3 4 by (cases "joi_timestamp lib (map_of kvs ''timestamp'')") simp_all
  have 6: "filter (\<lambda>k. k \<notin> set schema_keys) (map fst kvs) = []"
    using a 1 2 3 4 5 by (cases "filter (\<lambda>k. k \<notin> set schema_keys) (map fst kvs)") simp_all
  have "v = \<lparr>employee_id = emp, latitude = lat, longitude = lon, gps_status = g, timestamp = ts\<rparr>"
    using a 1 2 3 4 5 6 by simp
  then show ?thesis using that[OF b] 1 2 3 4 5 6 by simp
qed

lemma validate_Inl_cases:
  "joi_bounded lib ''latitude'' (- 90) 90 (map_of kvs ''latitude'') = Inl e1
   \<or> joi_bounded lib ''longitude'' (- 180) 180 (map_of kvs ''longitude'') = Inl e2
   \<or> filter (\<lambda>k. k \<notin> set schema_keys) (map fst kvs) \<noteq> []
   \<Longrightarrow> \<exists>e. locationSchema_validate lib (JObj kvs) = Inl e"
  by (cases "locationSchema_validate lib (JObj kvs)") (auto elim!: validate_Inr)

lemma joi_bounded_out:
  "joi_number lib key v = Inr n \<Longrightarrow> \<not> in_range lo hi n \<Longrightarrow> \<exists>e. joi_bounded lib key lo hi v = Inl e"
  by (auto simp: joi_bounded_def joi_number_base_def in_range_def split: jsnum.splits)

lemma transaction_fields:
  assumes "employee_id v = employee_id w" "latitude v = latitude w"
    "longitude v = longitude w" "gps_status v = gps_status w"
  shows "transaction env v d = transaction env w d"
proof -
  have u: "upsert_live env v = upsert_live env w"
    by (rule ext) (simp add: upsert_live_def assms split: sum.splits)
  have i: "insert_history env v = insert_history env w"
    by (rule ext) (simp add: insert_history_def assms split: sum.splits)
  show ?thesis
    unfolding transaction_def u i assms ..
qed

lemma post_location_valid:
  "locationSchema_validate lib req_body = Inr v \<Longrightarrow>
   post_location lib env req_body st =
     (if getConnection_fails env
      then \<lparr>resp = None, srv = st, sql_log = [], ws_log = []\<rparr>
      else (case transaction env v (db st) of
              (stmts, Inl e) \<Rightarrow> catch_block env st stmts
            | (stmts, Inr d) \<Rightarrow>
                (let payload = \<lparr>employee_id = employee_id v, latitude = latitude v,
                                longitude = longitude v, gps_status = gps_status v,
                                last_update = clock_Date env\<rparr>
                 in case broadcast env (wss_clients st) payload of
                      Inl e \<Rightarrow> catch_block env (st\<lparr>db := d\<rparr>) stmts
                    | Inr sent \<Rightarrow>
                        \<lparr>resp = Some (Response 200 (LocationUpdated payload)),
                         srv = st\<lparr>db := d\<rparr>, sql_log = stmts, ws_log = sent\<rparr>)))"
  by (simp add: post_location_def)

lemma validated_ranges:
  assumes "locationSchema_validate lib req_body = Inr v"
  shows "1 \<le> employee_id v \<and> \<bar>latitude v\<bar> \<le> 90 \<and> \<bar>longitude v\<bar> \<le> 180"
proof -
  from assms obtain kvs where
    e: "joi_employee_id lib (map_of kvs ''employee_id'') = Inr (employee_id v)"
    and la: "joi_bounded lib ''latitude'' (- 90) 90 (map_of kvs ''latitude'') = Inr (latitude v)"
    and lo: "joi_bounded lib ''longitude'' (- 180) 180 (map_of kvs ''longitude'') = Inr (longitude v)"
    by (auto elim!: validate_Inr)
  have "1 \<le> employee_id v"
    using e by (auto simp: joi_employee_id_def split: sum.splits if_splits)
  moreover have "\<bar>latitude v\<bar> \<le> 90"
    using joi_bounded_Inr[OF la] by auto
  moreover have "\<bar>longitude v\<bar> \<le> 180"
    using joi_bounded_Inr[OF lo] by auto
  ultimately show ?thesis by simp
qed

lemma validated_DECIMAL:
  assumes "locationSchema_validate lib req_body = Inr v"
  shows "DECIMAL_10_6 (latitude v) = Inr (round6 (latitude v))"
    and "DECIMAL_10_6 (longitude v) = Inr (round6 (longitude v))"
  using validated_ranges[OF assms] round6_bound[of "latitude v"] round6_bound[of "longitude v"]
  by (simp_all add: DECIMAL_10_6_def)

lemma validate_fields7: "locationSchema_validate lib (JObj fields7) = Inr report7"
  by (simp add: fields7_def joi_defs report7_def)

section \<open>Lemmas on the handler of a report\<close>

lemma INT_column_Inr: "INT_column n = Inr m \<Longrightarrow> m = n"
  by (simp add: INT_column_def split: if_splits)

lemma DECIMAL_Inr: "DECIMAL_10_6 x = Inr y \<Longrightarrow> y = round6 x"
  by (simp add: DECIMAL_10_6_def split: if_splits)

lemma upsert_live_Inr:
  "upsert_live env v d = Inr d' \<Longrightarrow>
   d' = d\<lparr>employee_live_location :=
            on_duplicate_key_update (stored v (NOW (clock_upsert env))) (employee_live_location d)\<rparr>"
  by (auto simp: upsert_live_def stored_def split: if_splits sum.splits
      dest!: INT_column_Inr DECIMAL_Inr)

lemma insert_history_Inr:
  "insert_history env v d = Inr d' \<Longrightarrow>
   d' = d\<lparr>employee_location_history :=
            employee_location_history d @ [logged v (NOW (clock_insert env))]\<rparr>"
  by (auto simp: insert_history_def logged_def split: if_splits sum.splits
      dest!: INT_column_Inr DECIMAL_Inr)

lemma transaction_Inr:
  assumes "transaction env v d = (stmts, Inr d')"
  shows "d' = \<lparr>employee_live_location =
                 on_duplicate_key_update (stored v (NOW (clock_upsert env))) (employee_live_location d),
               employee_location_history =
                 employee_location_history d @ [logged v (NOW (clock_insert env))]\<rparr>"
proof -
  obtain d1 where 1: "upsert_live env v d = Inr d1"
    using assms by (cases "upsert_live env v d") (auto simp: transaction_def Let_def split: if_splits)
  obtain d2 where 2: "insert_history env v d1 = Inr d2"
    using assms 1
    by (cases "insert_history env v d1") (auto simp: transaction_def Let_def split: if_splits)
  have "d' = d2"
    using assms 1 2 by (auto simp: transaction_def Let_def split: if_splits)
  then show ?thesis
    using upsert_live_Inr[OF 1] insert_history_Inr[OF 2] by simp
qed

lemma forEach_try_send:
  "forEach (try_send env msg) cs acc =
     Inr (acc @ map (\<lambda>c. if c \<in> set (broken env) then Failed c msg else Delivered c msg) cs)"
  by (induction cs arbitrary: acc) (simp_all add: try_send_def send_def)

lemma broadcast_eq:
  "broadcast env cs obj =
     Inr (map (\<lambda>c. if c \<in> set (broken env) then Failed c (Location obj)
                    else Delivered c (Location obj)) cs)"
  by (simp add: broadcast_def forEach_try_send)

lemma post_location_200:
  assumes "resp (post_location lib env req_body st) = Some (Response 200 b)"
  obtains v stmts d where "locationSchema_validate lib req_body = Inr v"
    and "transaction env v (db st) = (stmts, Inr d)"
    and "post_location lib env req_body st =
           \<lparr>resp = Some (Response 200 (LocationUpdated (payload_of env v))), srv = st\<lparr>db := d\<rparr>,
            sql_log = stmts,
            ws_log = map (\<lambda>c. if c \<in> set (broken env) then Failed c (Location (payload_of env v))
                               else Delivered c (Location (payload_of env v))) (wss_clients st)\<rparr>"
proof -
  obtain v where v: "locationSchema_validate lib req_body = Inr v"
    using assms by (cases "locationSchema_validate lib req_body") (auto simp: post_location_def)
  obtain stmts r where t: "transaction env v (db st) = (stmts, r)"
    by (cases "transaction env v (db st)")
  have g: "\<not> getConnection_fails env"
    using assms by (auto simp: post_location_valid[OF v])
  obtain d where r: "r = Inr d"
    using assms g t by (cases r) (auto simp: post_location_valid[OF v] catch_block_def split: if_splits)
  have "post_location lib env req_body st =
           \<lparr>resp = Some (Response 200 (LocationUpdated (payload_of env v))), srv = st\<lparr>db := d\<rparr>,
            sql_log = stmts,
            ws_log = map (\<lambda>c. if c \<in> set (broken env) then Failed c (Location (payload_of env v))
                               else Delivered c (Location (payload_of env v))) (wss_clients st)\<rparr>"
    using g t r by (simp add: post_location_valid[OF v] broadcast_eq payload_of_def Let_def)
  then show ?thesis
    using that[OF v] t r by simp
qed

lemma upsert_distinct:
  "distinct (map employee_id rows) \<Longrightarrow> distinct (map employee_id (on_duplicate_key_update new rows))"
proof -
  have "map employee_id (map (\<lambda>r. if employee_id r = employee_id new
                     then r\<lparr>latitude := latitude new, longitude := longitude new,
                            gps_status := gps_status new, last_update := last_update new\<rparr>
                     else r) rows) = map employee_id rows"
    by (induction rows) auto
  then show "distinct (map employee_id rows) \<Longrightarrow> ?thesis"
    unfolding on_duplicate_key_update_def by (auto simp del: map_map)
qed

lemma overwrite_all:
  "employee_id r = employee_id new \<Longrightarrow>
   r\<lparr>latitude := latitude new, longitude := longitude new,
     gps_status := gps_status new, last_update := last_update new\<rparr> = (new :: current_position)"
  by (cases r, cases new) simp

lemma upsert_replaces:
  "on_duplicate_key_update new rows =
     (if employee_id new \<in> employee_id ` set rows
      then map (\<lambda>r. if employee_id r = employee_id new then new else r) rows
      else rows @ [new])"
proof -
  have "(\<exists>r \<in> set rows. employee_id r = employee_id new) \<longleftrightarrow>
        employee_id new \<in> employee_id ` set rows"
    unfolding image_iff by metis
  then show ?thesis
    by (simp add: on_duplicate_key_update_def overwrite_all cong: if_cong)
qed

lemma srv_post_location:
  "db (srv (post_location lib env req_body st)) = db st \<or>
   (\<exists>v stmts. transaction env v (db st) = (stmts, Inr (db (srv (post_location lib env req_body st)))))"
proof (cases "locationSchema_validate lib req_body")
  case (Inl e)
  then show ?thesis by (simp add: post_location_def)
next
  case v: (Inr v)
  obtain stmts r where t: "transaction env v (db st) = (stmts, r)"
    by (cases "transaction env v (db st)")
  show ?thesis
  proof (cases r)
    case (Inl e)
    then show ?thesis
      by (simp add: post_location_valid[OF v] t catch_block_def)
  next
    case (Inr d)
    have "db (srv (post_location lib env req_body st)) = db st
          \<or> db (srv (post_location lib env req_body st)) = d"
      by (simp add: post_location_valid[OF v] t Inr broadcast_eq Let_def)
    then show ?thesis
      using t Inr by auto
  qed
qed

lemma reachable_distinct:
  "reachable lib st \<Longrightarrow> distinct (map employee_id (employee_live_location (db st)))"
proof (induction rule: reachable.induct)
  case start
  then show ?case by (simp add: empty_store_def)
next
  case (connect st now c)
  then show ?case by (simp add: connection_def)
next
  case (close st c)
  then show ?case by simp
next
  case (post st env req_body)
  from srv_post_location[of lib env req_body st] show ?case
  proof
    assume "db (srv (post_location lib env req_body st)) = db st"
    then show ?thesis using post.IH by simp
  next
    assume "\<exists>v stmts. transaction env v (db st) = (stmts, Inr (db (srv (post_location lib env req_body st))))"
    then obtain v stmts where
      "transaction env v (db st) = (stmts, Inr (db (srv (post_location lib env req_body st))))"
      by blast
    from transaction_Inr[OF this] show ?thesis
      using post.IH by (metis store.simps(1) upsert_distinct)
  qed
qed

lemma transaction_ok:
  assumes v: "locationSchema_validate lib req_body = Inr v" and ok: "\<not> write_fails env v"
  shows "transaction env v d = (statements v, Inr (committed env v d))"
proof -
  have i: "INT_column (employee_id v) = Inr (employee_id v)"
    using validated_ranges[OF v] ok by (simp add: INT_column_def write_fails_def)
  have u: "upsert_live env v d = Inr (d\<lparr>employee_live_location :=
            on_duplicate_key_update (stored v (NOW (clock_upsert env))) (employee_live_location d)\<rparr>)"
    using ok by (simp add: upsert_live_def i validated_DECIMAL[OF v] stored_def write_fails_def)
  have h: "insert_history env v d' = Inr (d'\<lparr>employee_location_history :=
            employee_location_history d' @ [logged v (NOW (clock_insert env))]\<rparr>)" for d'
    using ok by (simp add: insert_history_def i validated_DECIMAL[OF v] logged_def write_fails_def)
  show ?thesis
    using ok by (simp add: transaction_def u h statements_def committed_def write_fails_def)
qed

lemma transaction_fails:
  assumes v: "locationSchema_validate lib req_body = Inr v" and bad: "write_fails env v"
  shows "\<exists>e. snd (transaction env v d) = Inl e"
proof -
  have i: "2147483647 < employee_id v \<Longrightarrow> INT_column (employee_id v) = Inl OutOfRange"
    by (simp add: INT_column_def)
  show ?thesis
  proof (cases "2147483647 < employee_id v")
    case True
    then show ?thesis
      by (simp add: transaction_def upsert_live_def i Let_def)
  next
    case False
    then have "beginTransaction_fails env \<or> upsert_fails env \<or> insert_fails env \<or> commit_fails env"
      using bad by (simp add: write_fails_def)
    then show ?thesis
      by (auto simp: transaction_def Let_def upsert_live_def insert_history_def split: sum.splits)
  qed
qed

lemma post_location_ok:
  assumes v: "locationSchema_validate lib req_body = Inr v"
    and c: "\<not> getConnection_fails env" and ok: "\<not> write_fails env v"
  shows "post_location lib env req_body st =
           \<lparr>resp = Some (Response 200 (LocationUpdated (payload_of env v))),
            srv = st\<lparr>db := committed env v (db st)\<rparr>,
            sql_log = statements v,
            ws_log = map (\<lambda>c. if c \<in> set (broken env) then Failed c (Location (payload_of env v))
                               else Delivered c (Location (payload_of env v))) (wss_clients st)\<rparr>"
  using c by (simp add: post_location_valid[OF v] transaction_ok[OF v ok] broadcast_eq payload_of_def Let_def)

lemma post_location_failed:
  assumes v: "locationSchema_validate lib req_body = Inr v"
    and c: "\<not> getConnection_fails env" and bad: "write_fails env v"
  shows "post_location lib env req_body st =
           \<lparr>resp = (if rollback_fails env then None
                    else Some (Response 500 (Failure (Message ''Database error'')))),
            srv = st,
            sql_log = fst (transaction env v (db st)) @ [Rollback],
            ws_log = []\<rparr>"
proof -
  obtain stmts r where t: "transaction env v (db st) = (stmts, r)"
    by (cases "transaction env v (db st)")
  obtain e where "r = Inl e"
    using transaction_fails[OF v bad, of "db st"] t by auto
  then show ?thesis
    using c t by (simp add: post_location_valid[OF v] catch_block_def)
qed

lemma clients_kept:
  "wss_clients (srv (post_location lib env req_body st)) = wss_clients st"
proof (cases "locationSchema_validate lib req_body")
  case (Inl e)
  then show ?thesis by (simp add: post_location_def)
next
  case v: (Inr v)
  obtain stmts r where t: "transaction env v (db st) = (stmts, r)"
    by (cases "transaction env v (db st)")
  show ?thesis
    by (cases r) (simp_all add: post_location_valid[OF v] t catch_block_def broadcast_eq Let_def)
qed

section \<open>Lemmas on the reads\<close>

lemma n7: "js_Number ''7'' = Fin 7"
  by (simp add: js_defs)
lemma n10: "js_Number ''10'' = Fin 10"
  by (simp add: js_defs)
lemma n1: "js_Number ''1'' = Fin 1"
  by (simp add: js_defs)





text \<open>Every history query with a whole count has an answer.\<close>

lemma select_history_answerable:
  "\<exists>rows. select_history d (Fin e) (Fin (of_nat n)) (Inr rows)"
proof -
  define matching where
    "matching = filter (\<lambda>r. of_int (employee_id r) = e) (employee_location_history d)"
  define ys where "ys = sort_key (\<lambda>r. - int (recorded_at r)) matching"
  have m: "mset ys = mset matching" by (simp add: ys_def)
  have s: "sorted_wrt (\<lambda>a b. recorded_at b \<le> recorded_at a) ys"
  proof -
    have "sorted (map (\<lambda>r. - int (recorded_at r)) ys)" by (simp add: ys_def)
    then show ?thesis by (simp add: sorted_map)
  qed
  have split: "ys = take n ys @ drop n ys" by simp
  have 1: "newest_first (take n ys)"
    using s unfolding newest_first_def by (metis split sorted_wrt_append)
  have 2: "length (take n ys) = min n (length matching)"
    using m by (metis length_take mset_eq_length min.commute)
  have 3: "mset (take n ys) \<subseteq># mset matching"
    by (metis m split mset_append mset_subset_eq_add_left)
  have 4: "mset matching - mset (take n ys) = mset (drop n ys)"
    by (metis m split mset_append add_diff_cancel_left')
  have 5: "\<forall>x \<in> set (drop n ys). \<forall>y \<in> set (take n ys). recorded_at x \<le> recorded_at y"
    using s by (metis split sorted_wrt_append)
  have fl: "nat \<lfloor>(of_nat n :: rat)\<rfloor> = n" by simp
  have "select_history d (Fin e) (Fin (of_nat n)) (Inr (take n ys))"
    unfolding select_history_def sum.case prod.case jsnum.case Let_def matching_def[symmetric] fl 4
    using 1 2 3 5 by simp
  then show ?thesis ..
qed

lemma emp_in_image: "r \<in> set rows \<Longrightarrow> employee_id r = e \<Longrightarrow> e \<in> employee_id ` set rows"
  by auto

lemma stored_in_upsert: "new \<in> set (on_duplicate_key_update new rows)"
  by (auto simp: upsert_replaces)

lemma filter_upsert:
  assumes "distinct (map employee_id rows)"
  shows "filter (\<lambda>r. employee_id r = employee_id new) (on_duplicate_key_update new rows) = [new]"
proof (cases "employee_id new \<in> employee_id ` set rows")
  case False
  then have "filter (\<lambda>r. employee_id r = employee_id new) rows = []"
    by (auto simp: filter_empty_conv dest: emp_in_image)
  with False show ?thesis by (simp add: upsert_replaces)
next
  case True
  from assms True
  have "filter (\<lambda>r. employee_id r = employee_id new)
          (map (\<lambda>r. if employee_id r = employee_id new then new else r) rows) = [new]"
  proof (induction rows)
    case Nil
    then show ?case by simp
  next
    case (Cons r rows)
    show ?case
    proof (cases "employee_id r = employee_id new")
      case True
      then have "employee_id new \<notin> employee_id ` set rows"
        using Cons.prems(1) by auto
      then have "filter (\<lambda>r. employee_id r = employee_id new)
          (map (\<lambda>r. if employee_id r = employee_id new then new else r) rows) = []"
        by (auto simp: filter_empty_conv dest: emp_in_image)
      with True show ?thesis by simp
    next
      case False
      then show ?thesis using Cons by auto
    qed
  qed
  with True show ?thesis by (simp add: upsert_replaces)
qed

lemma filter_permuted:
  assumes "mset rows = mset xs" and "filter P xs = [x]"
  shows "filter P rows = [x]"
proof -
  have "mset (filter P rows) = mset (filter P xs)"
    using assms(1) by (simp add: mset_filter)
  then have "mset (filter P rows) = {#x#}"
    using assms(2) by simp
  then show ?thesis by (metis mset_single_iff)
qed

lemma newest_is_first:
  assumes nf: "newest_first hs"
    and len: "length hs = min n (length (old @ [h]))" and n: "1 \<le> n"
    and sub: "mset hs \<subseteq># mset (old @ [h])"
    and rest: "\<forall>x \<in># mset (old @ [h]) - mset hs. \<forall>y \<in> set hs. recorded_at x \<le> recorded_at y"
    and newer: "\<forall>x \<in> set old. recorded_at x < recorded_at h"
  shows "hs \<noteq> [] \<and> hd hs = h"
proof -
  have ne: "hs \<noteq> []" using len n by (cases hs) auto
  have mem: "set hs \<subseteq> set (old @ [h])"
    using sub by (metis set_mset_mono set_mset_mset)
  have "h \<in> set hs"
  proof (rule ccontr)
    assume nin: "h \<notin> set hs"
    then have "h \<in># mset (old @ [h]) - mset hs"
      by (simp add: in_diff_count count_eq_zero_iff)
    then have "recorded_at h \<le> recorded_at (hd hs)"
      using rest ne by auto
    moreover have "hd hs \<in> set old"
      using mem ne nin by (metis Un_iff empty_iff empty_set hd_in_set set_ConsD set_append subsetD)
    ultimately show False using newer by fastforce
  qed
  have "recorded_at h \<le> recorded_at (hd hs)"
  proof (cases hs)
    case Nil
    then show ?thesis using ne by simp
  next
    case (Cons a as)
    then show ?thesis
      using nf \<open>h \<in> set hs\<close> by (auto simp: newest_first_def)
  qed
  moreover have "hd hs \<in> set (old @ [h])" using mem hd_in_set[OF ne] by blast
  ultimately have "hd hs = h" using newer by fastforce
  with ne show ?thesis by simp
qed

section \<open>Lemmas on the concrete inputs\<close>

lemma stored7:
  "stored report7 t =
     \<lparr>employee_id = 7, latitude = 25 / 2, longitude = 309 / 4, gps_status = On,
      last_update = t\<rparr>"
  by (simp add: stored_def report7_def round6_def)

lemma logged7:
  "logged report7 t =
     \<lparr>employee_id = 7, latitude = 25 / 2, longitude = 309 / 4, gps_status = On,
      recorded_at = t\<rparr>"
  by (simp add: logged_def report7_def round6_def)

lemma payload7:
  "payload_of env report7 =
     \<lparr>employee_id = 7, latitude = 25 / 2, longitude = 309 / 4, gps_status = On,
      last_update = clock_Date env\<rparr>"
  by (simp add: payload_of_def report7_def)

lemma statements7:
  "statements report7 =
     [BeginTransaction, UpsertLive 7 (25 / 2) (309 / 4) On,
      InsertHistory 7 (25 / 2) (309 / 4) On, Commit]"
  by (simp add: statements_def report7_def)

lemma validate_fields7_off: "locationSchema_validate lib (JObj fields7_off) = Inr report7_off"
  by (simp add: fields7_off_def joi_defs report7_def report7_off_def)

lemma stored7_off:
  "stored report7_off t =
     \<lparr>employee_id = 7, latitude = 25 / 2, longitude = 309 / 4, gps_status = Off,
      last_update = t\<rparr>"
  by (simp add: stored_def report7_def report7_off_def round6_def)

lemma logged7_off:
  "logged report7_off t =
     \<lparr>employee_id = 7, latitude = 25 / 2, longitude = 309 / 4, gps_status = Off,
      recorded_at = t\<rparr>"
  by (simp add: logged_def report7_def report7_off_def round6_def)

lemma ok7:
  "\<not> getConnection_fails quiet" "\<not> write_fails quiet report7"
  "\<not> getConnection_fails later" "\<not> write_fails later report7_off"
  "\<not> write_fails quiet report7_off"
  "\<not> getConnection_fails three_clocks" "\<not> write_fails three_clocks report7"
  by (simp_all add: quiet_def write_fails_def report7_def later_def report7_off_def
      three_clocks_def)

lemma first_report: "srv (post_location lib quiet (JObj fields7) fresh) = after_first"
  unfolding post_location_ok[OF validate_fields7 ok7(1,2)]
  by (simp add: committed_def stored7 logged7 fresh_def empty_store_def
      on_duplicate_key_update_def NOW_def quiet_def after_first_def)

lemma reachable_after_first: "reachable lib after_first"
  using reachable.post[OF reachable.start, of lib quiet "JObj fields7"]
  by (simp add: first_report[unfolded fresh_def])

lemma second_report:
  "db (srv (post_location lib later (JObj fields7_off) after_first)) =
     \<lparr>employee_live_location =
               [\<lparr>employee_id = 7, latitude = 25 / 2, longitude = 309 / 4, gps_status = Off,
                 last_update = 9000\<rparr>],
             employee_location_history =
               [\<lparr>employee_id = 7, latitude = 25 / 2, longitude = 309 / 4, gps_status = On,
                 recorded_at = 5000\<rparr>,
                \<lparr>employee_id = 7, latitude = 25 / 2, longitude = 309 / 4, gps_status = Off,
                 recorded_at = 9000\<rparr>]\<rparr>"
  unfolding post_location_ok[OF validate_fields7_off ok7(3,4)]
  by (simp add: committed_def stored7_off logged7_off on_duplicate_key_update_def NOW_def
      later_def quiet_def after_first_def)

lemma validate_fields_fine: "locationSchema_validate lib (JObj fields_fine) = Inr report_fine"
  by (simp add: fields_fine_def joi_defs report7_def report_fine_def)

lemma ok_fine: "\<not> write_fails quiet report_fine"
  by (simp add: quiet_def write_fails_def report7_def report_fine_def)

lemma stored_fine:
  "stored report_fine t =
     \<lparr>employee_id = 7, latitude = 12345679 / 1000000, longitude = 309 / 4, gps_status = On,
      last_update = t\<rparr>"
  by (simp add: stored_def report7_def report_fine_def round6_def)

lemma get_locations_200:
  "fst (get_locations answer) = Response 200 (Locations rows) \<Longrightarrow> answer = Inr rows"
  by (cases answer) (simp_all add: get_locations_def)

lemma get_history_200:
  "fst (get_history p q answer) = Response 200 (History hs) \<Longrightarrow> answer = Inr hs"
  by (cases answer) (simp_all add: get_history_def Let_def split: if_splits)

lemma select_history_newest:
  assumes sel: "select_history
        \<lparr>employee_live_location = live, employee_location_history = hist @ [logged v t]\<rparr>
        (Fin (of_int (employee_id v))) (Fin (of_nat n)) (Inr hs)"
    and n: "1 \<le> n"
    and newer: "\<forall>h \<in> set hist. employee_id h = employee_id v \<longrightarrow> recorded_at h < t"
  shows "hs \<noteq> [] \<and> hd hs = logged v t"
proof -
  define old where "old = filter (\<lambda>r. employee_id r = employee_id v) hist"
  have e: "employee_id (logged v t) = employee_id v" and ra: "recorded_at (logged v t) = t"
    by (simp_all add: logged_def)
  have m: "filter (\<lambda>r. (of_int (employee_id r) :: rat) = of_int (employee_id v)) (hist @ [logged v t])
           = old @ [logged v t]"
    by (simp add: old_def e)
  have fl: "nat \<lfloor>(of_nat n :: rat)\<rfloor> = n" by simp
  have c: "0 \<le> (of_nat n :: rat) \<and> of_int \<lfloor>(of_nat n :: rat)\<rfloor> = (of_nat n :: rat)
      \<and> newest_first hs
      \<and> length hs = min n (length (old @ [logged v t]))
      \<and> mset hs \<subseteq># mset (old @ [logged v t])
      \<and> (\<forall>x \<in># mset (old @ [logged v t]) - mset hs. \<forall>y \<in> set hs. recorded_at x \<le> recorded_at y)"
    by (rule sel[unfolded select_history_def sum.case jsnum.case prod.case Let_def
          store.select_convs m fl])
  from c have "newest_first hs" by blast
  moreover from c have "length hs = min n (length (old @ [logged v t]))" by blast
  moreover from c have "mset hs \<subseteq># mset (old @ [logged v t])" by blast
  moreover from c have "\<forall>x \<in># mset (old @ [logged v t]) - mset hs. \<forall>y \<in> set hs. recorded_at x \<le> recorded_at y"
    by blast
  moreover have "\<forall>x \<in> set old. recorded_at x < recorded_at (logged v t)"
    using newer by (simp add: old_def ra)
  ultimately show ?thesis using n newest_is_first[of hs n old "logged v t"] by blast
qed

section \<open>Broadcast to the connected sockets\<close>

text \<open>
  C4, as the code has it. When \<open>send\<close> throws for one socket during a broadcast, the
  exception is caught inside the loop: \<open>broadcast\<close> returns normally, and every other
  socket is still sent the message, in the order of the set. The set of sockets is left as
  it was: the handler of a report never removes a socket, so a socket whose \<open>send\<close>
  failed is tried again by the next broadcast.
\<close>

theorem broadcast_survives_failed_send:
  "broadcast env cs obj =
     Inr (map (\<lambda>c. if c \<in> set (broken env) then Failed c (Location obj)
                    else Delivered c (Location obj)) cs)
   \<and> wss_clients (srv (post_location lib env req_body st)) = wss_clients st"
proof
  have "forEach (try_send env (Location obj)) cs [] =
          Inr ([] @ map (\<lambda>c. if c \<in> set (broken env) then Failed c (Location obj)
                               else Delivered c (Location obj)) cs)"
    by (rule forEach_try_send)
  then show "broadcast env cs obj =
     Inr (map (\<lambda>c. if c \<in> set (broken env) then Failed c (Location obj)
                    else Delivered c (Location obj)) cs)"
    by (simp add: broadcast_def)
next
  show "wss_clients (srv (post_location lib env req_body st)) = wss_clients st"
    by (rule clients_kept)
qed

text \<open>
  C4 as stated fails: with sockets 1 and 2 connected and socket 1 broken, a report is
  delivered to socket 2 only, and afterwards socket 1 is still in the set.
\<close>

theorem failed_observer_stays_registered:
  "ws_log (post_location sample_lib (quiet\<lparr>broken := [1]\<rparr>) (JObj fields7)
            \<lparr>db = empty_store, wss_clients = [1, 2]\<rparr>)
     = [Failed 1 (Location \<lparr>employee_id = 7, latitude = 25 / 2, longitude = 309 / 4,
                            gps_status = On, last_update = 5000\<rparr>),
        Delivered 2 (Location \<lparr>employee_id = 7, latitude = 25 / 2, longitude = 309 / 4,
                               gps_status = On, last_update = 5000\<rparr>)]
   \<and> wss_clients (srv (post_location sample_lib (quiet\<lparr>broken := [1]\<rparr>) (JObj fields7)
                          \<lparr>db = empty_store, wss_clients = [1, 2]\<rparr>))
     = [1, 2]"
  by (simp add: post_location_ok[OF validate_fields7] write_fails_def payload_of_def quiet_def
      report7_def)

section \<open>The history of an employee\<close>







section \<open>The current positions\<close>

text \<open>
  C8. In every state the server can reach, \<open>employee_live_location\<close> has at most one
  row per employee. A report that is answered with status 200 either adds the row of its
  employee, when there was none, or puts a whole new row in the place of the old one:
  latitude, longitude, status and instant are all those of the report, and the rows of
  other employees are untouched.
\<close>

theorem one_row_per_worker:
  assumes "reachable lib st"
  shows "distinct (map employee_id (employee_live_location (db st))) \<and>
    (resp (post_location lib env req_body st) = Some (Response 200 b) \<longrightarrow>
      (\<exists>v. locationSchema_validate lib req_body = Inr v \<and>
         employee_live_location (db (srv (post_location lib env req_body st))) =
           (if employee_id v \<in> employee_id ` set (employee_live_location (db st))
            then map (\<lambda>r. if employee_id r = employee_id v then stored v (NOW (clock_upsert env)) else r)
                   (employee_live_location (db st))
            else employee_live_location (db st) @ [stored v (NOW (clock_upsert env))])))"
proof (intro conjI impI)
  show "distinct (map employee_id (employee_live_location (db st)))"
    using assms by (rule reachable_distinct)
next
  assume "resp (post_location lib env req_body st) = Some (Response 200 b)"
  then obtain v stmts d where v: "locationSchema_validate lib req_body = Inr v"
    and t: "transaction env v (db st) = (stmts, Inr d)"
    and p: "srv (post_location lib env req_body st) = st\<lparr>db := d\<rparr>"
    by (auto elim!: post_location_200)
  have "employee_id (stored v (NOW (clock_upsert env))) = employee_id v"
    by (simp add: stored_def)
  then show "\<exists>v. locationSchema_validate lib req_body = Inr v \<and>
         employee_live_location (db (srv (post_location lib env req_body st))) =
           (if employee_id v \<in> employee_id ` set (employee_live_location (db st))
            then map (\<lambda>r. if employee_id r = employee_id v then stored v (NOW (clock_upsert env)) else r)
                   (employee_live_location (db st))
            else employee_live_location (db st) @ [stored v (NOW (clock_upsert env))])"
    using v p transaction_Inr[OF t] upsert_replaces[of "stored v (NOW (clock_upsert env))"]
    by (intro exI[of _ v]) simp
qed

theorem one_row_per_worker_witness:
  "reachable sample_lib after_first
   \<and> distinct (map employee_id (employee_live_location (db after_first)))
   \<and> resp (post_location sample_lib later (JObj fields7_off) after_first)
       = Some (Response 200 (LocationUpdated (payload_of later report7_off)))
   \<and> locationSchema_validate sample_lib (JObj fields7_off) = Inr report7_off
   \<and> employee_live_location (db (srv (post_location sample_lib later (JObj fields7_off) after_first)))
       = [\<lparr>employee_id = 7, latitude = 25 / 2, longitude = 309 / 4, gps_status = Off,
           last_update = 9000\<rparr>]"
proof -
  have r: "resp (post_location sample_lib later (JObj fields7_off) after_first)
       = Some (Response 200 (LocationUpdated (payload_of later report7_off)))"
    by (simp add: post_location_ok[OF validate_fields7_off ok7(3,4)])
  from one_row_per_worker[OF reachable_after_first, of sample_lib later "JObj fields7_off"] r
  show ?thesis
    by (simp add: reachable_after_first validate_fields7_off second_report)
qed

section \<open>Reports that the schema refuses\<close>

text \<open>
  C3. A report whose latitude, as the schema reads it, is outside \<open>[-90, 90]\<close>, or
  whose longitude is outside \<open>[-180, 180]\<close>, is answered with status 400; the store
  and the sockets are as before, no statement is sent to the database and nothing is
  broadcast.
\<close>

theorem out_of_range_rejected:
  assumes "(joi_number lib ''latitude'' (map_of kvs ''latitude'') = Inr n \<and> \<not> in_range (- 90) 90 n)
         \<or> (joi_number lib ''longitude'' (map_of kvs ''longitude'') = Inr n \<and> \<not> in_range (- 180) 180 n)"
  shows "\<exists>e. post_location lib env (JObj kvs) st =
           \<lparr>resp = Some (Response 400 (Failure (JoiMessage e))), srv = st, sql_log = [], ws_log = []\<rparr>"
proof -
  from assms have "\<exists>e. locationSchema_validate lib (JObj kvs) = Inl e"
    using joi_bounded_out validate_Inl_cases by metis
  then show ?thesis using validate_Inl by blast
qed

theorem out_of_range_rejected_witness:
  "joi_number sample_lib ''latitude''
      (map_of [(''employee_id'', JNum (Fin 7)), (''latitude'', JNum (Fin 91)),
               (''longitude'', JNum (Fin (309 / 4))), (''gps_status'', JStr ''on'')] ''latitude'')
     = Inr (Fin 91)
   \<and> \<not> in_range (- 90) 90 (Fin 91)
   \<and> post_location sample_lib quiet
        (JObj [(''employee_id'', JNum (Fin 7)), (''latitude'', JNum (Fin 91)),
               (''longitude'', JNum (Fin (309 / 4))), (''gps_status'', JStr ''on'')]) fresh
     = \<lparr>resp = Some (Response 400 (Failure (JoiMessage (NumberMax ''latitude'')))), srv = fresh,
        sql_log = [], ws_log = []\<rparr>"
  using out_of_range_rejected[of sample_lib
      "[(''employee_id'', JNum (Fin 7)), (''latitude'', JNum (Fin 91)),
        (''longitude'', JNum (Fin (309 / 4))), (''gps_status'', JStr ''on'')]" "Fin 91" quiet fresh]
  by (simp add: post_location_def joi_defs in_range_def)

text \<open>
  C9. A report with a key that the schema does not name is answered with status 400, and
  nothing is written, sent to the database or broadcast: the key is an error, it is not
  dropped.
\<close>

theorem unknown_key_rejected:
  assumes "k \<in> fst ` set kvs" and "k \<notin> set schema_keys"
  shows "\<exists>e. post_location lib env (JObj kvs) st =
           \<lparr>resp = Some (Response 400 (Failure (JoiMessage e))), srv = st, sql_log = [], ws_log = []\<rparr>"
proof -
  have "filter (\<lambda>k. k \<notin> set schema_keys) (map fst kvs) \<noteq> []"
    using assms by (auto simp: filter_empty_conv)
  then have "\<exists>e. locationSchema_validate lib (JObj kvs) = Inl e"
    using validate_Inl_cases by blast
  then show ?thesis using validate_Inl by blast
qed

theorem unknown_key_rejected_witness:
  "''speed'' \<in> fst ` set (fields7 @ [(''speed'', JNum (Fin 3))])
   \<and> ''speed'' \<notin> set schema_keys
   \<and> post_location sample_lib quiet (JObj (fields7 @ [(''speed'', JNum (Fin 3))])) fresh
     = \<lparr>resp = Some (Response 400 (Failure (JoiMessage (ObjectUnknown ''speed'')))), srv = fresh,
        sql_log = [], ws_log = []\<rparr>"
  using unknown_key_rejected[of "''speed''" "fields7 @ [(''speed'', JNum (Fin 3))]" sample_lib quiet fresh]
  by (simp add: post_location_def joi_defs fields7_def)

section \<open>The timestamp of a report\<close>

text \<open>
  C10. Two reports that the schema accepts and that differ only in the key
  \<open>timestamp\<close> (present or not, with any value the schema accepts) have the same
  outcome in the same state and environment: the same response, the same store, the same statements and the
  same messages to the sockets. The instants that are stored and returned come from the
  clocks of the environment.
\<close>

theorem timestamp_ignored:
  assumes a: "locationSchema_validate lib (JObj a) = Inr va"
    and b: "locationSchema_validate lib (JObj b) = Inr vb"
    and eq: "other_fields a = other_fields b"
  shows "post_location lib env (JObj a) st = post_location lib env (JObj b) st"
proof -
  have m: "map_of a ''employee_id'' = map_of b ''employee_id''"
    "map_of a ''latitude'' = map_of b ''latitude''"
    "map_of a ''longitude'' = map_of b ''longitude''"
    "map_of a ''gps_status'' = map_of b ''gps_status''"
    using eq by (simp_all add: other_fields_def)
  have "employee_id va = employee_id vb"
    using a b m(1) by (auto elim!: validate_Inr)
  moreover have "latitude va = latitude vb"
    using a b m(2) by (auto elim!: validate_Inr)
  moreover have "longitude va = longitude vb"
    using a b m(3) by (auto elim!: validate_Inr)
  moreover have "gps_status va = gps_status vb"
    using a b m(4) by (auto elim!: validate_Inr)
  ultimately show ?thesis
    using transaction_fields[of va vb env "db st"]
    by (simp add: post_location_valid[OF a] post_location_valid[OF b])
qed

theorem timestamp_ignored_witness:
  "locationSchema_validate sample_lib (JObj (fields7 @ [(''timestamp'', JStr ''2024-05-01T10:00:00Z'')]))
     = Inr (report7\<lparr>timestamp := Some ''2024-05-01T10:00:00Z''\<rparr>)
   \<and> locationSchema_validate sample_lib (JObj fields7) = Inr report7
   \<and> other_fields (fields7 @ [(''timestamp'', JStr ''2024-05-01T10:00:00Z'')])
       = other_fields fields7
   \<and> post_location sample_lib quiet (JObj (fields7 @ [(''timestamp'', JStr ''2024-05-01T10:00:00Z'')])) fresh
     = post_location sample_lib quiet (JObj fields7) fresh"
proof -
  have a: "locationSchema_validate sample_lib (JObj (fields7 @ [(''timestamp'', JStr ''2024-05-01T10:00:00Z'')]))
     = Inr (report7\<lparr>timestamp := Some ''2024-05-01T10:00:00Z''\<rparr>)"
    by (simp add: fields7_def joi_defs sample_lib_def report7_def)
  have b: "locationSchema_validate sample_lib (JObj fields7) = Inr report7"
    by (rule validate_fields7)
  have c: "other_fields (fields7 @ [(''timestamp'', JStr ''2024-05-01T10:00:00Z'')])
       = other_fields fields7"
    by (simp add: other_fields_def fields7_def)
  from a b c timestamp_ignored[OF a b c, of quiet fresh] show ?thesis by simp
qed

section \<open>The transaction of an accepted report\<close>

text \<open>
  When one of the four calls of the transaction fails, the store is as before and
  nothing is broadcast; the response is status 500 with \<open>Database error\<close> when the
  rollback goes through.
\<close>

lemma failed_write_leaves_no_trace:
  assumes "locationSchema_validate lib req_body = Inr v"
    and "\<not> getConnection_fails env" and "write_fails env v"
  shows "srv (post_location lib env req_body st) = st
     \<and> ws_log (post_location lib env req_body st) = []
     \<and> (\<not> rollback_fails env \<longrightarrow>
          resp (post_location lib env req_body st) =
            Some (Response 500 (Failure (Message ''Database error''))))"
  by (simp add: post_location_failed[OF assms])

text \<open>
  C1 on the code. The upsert is rejected, and so is \<open>conn.rollback()\<close> in the
  \<open>catch\<close> block, as on a connection that is lost: the exception leaves the handler
  before \<open>res.status(500)\<close>, and no response is written. The store is as before and
  nothing is broadcast.
\<close>

theorem rollback_rejected_no_response:
  "post_location sample_lib (quiet\<lparr>upsert_fails := True, rollback_fails := True\<rparr>) (JObj fields7) fresh
     = \<lparr>resp = None, srv = fresh,
        sql_log = [BeginTransaction, UpsertLive 7 (25 / 2) (309 / 4) On, Rollback], ws_log = []\<rparr>"
proof -
  have "write_fails (quiet\<lparr>upsert_fails := True, rollback_fails := True\<rparr>) report7"
    by (simp add: write_fails_def)
  moreover have "\<not> getConnection_fails (quiet\<lparr>upsert_fails := True, rollback_fails := True\<rparr>)"
    by (simp add: quiet_def)
  ultimately show ?thesis
    using post_location_failed[OF validate_fields7,
        of "quiet\<lparr>upsert_fails := True, rollback_fails := True\<rparr>" sample_lib fresh]
    by (simp add: transaction_def upsert_live_def quiet_def report7_def)
qed

text \<open>
  C7, as the code has it. For a report answered with status 200, the row of
  \<open>employee_live_location\<close> carries the database clock as the upsert read it, the new
  row of \<open>employee_location_history\<close> carries the database clock as the insert read it,
  and the response and the message to every socket carry one payload: the values of the
  validated report and the clock of the server read by \<open>new Date()\<close> after the commit.
\<close>

theorem ingestion_clocks:
  assumes "resp (post_location lib env req_body st) = Some (Response 200 b)"
  shows "\<exists>v. locationSchema_validate lib req_body = Inr v
     \<and> stored v (NOW (clock_upsert env))
         \<in> set (employee_live_location (db (srv (post_location lib env req_body st))))
     \<and> last (employee_location_history (db (srv (post_location lib env req_body st))))
         = logged v (NOW (clock_insert env))
     \<and> b = LocationUpdated (payload_of env v)
     \<and> ws_log (post_location lib env req_body st)
         = map (\<lambda>c. if c \<in> set (broken env) then Failed c (Location (payload_of env v))
                      else Delivered c (Location (payload_of env v))) (wss_clients st)"
proof -
  from assms obtain v stmts d where v: "locationSchema_validate lib req_body = Inr v"
    and t: "transaction env v (db st) = (stmts, Inr d)"
    and p: "post_location lib env req_body st =
           \<lparr>resp = Some (Response 200 (LocationUpdated (payload_of env v))), srv = st\<lparr>db := d\<rparr>,
            sql_log = stmts,
            ws_log = map (\<lambda>c. if c \<in> set (broken env) then Failed c (Location (payload_of env v))
                               else Delivered c (Location (payload_of env v))) (wss_clients st)\<rparr>"
    by (rule post_location_200)
  have "b = LocationUpdated (payload_of env v)"
    using assms p by simp
  then show ?thesis
    using v p transaction_Inr[OF t] stored_in_upsert by (intro exI[of _ v]) simp
qed

theorem ingestion_clocks_witness:
  "resp (post_location sample_lib three_clocks (JObj fields7) fresh)
     = Some (Response 200 (LocationUpdated (payload_of three_clocks report7)))
   \<and> locationSchema_validate sample_lib (JObj fields7) = Inr report7
   \<and> last (employee_location_history (db (srv (post_location sample_lib three_clocks (JObj fields7) fresh))))
       = logged report7 6000
   \<and> stored report7 5000
       \<in> set (employee_live_location (db (srv (post_location sample_lib three_clocks (JObj fields7) fresh))))"
proof -
  have r: "resp (post_location sample_lib three_clocks (JObj fields7) fresh)
     = Some (Response 200 (LocationUpdated (payload_of three_clocks report7)))"
    by (simp add: post_location_ok[OF validate_fields7 ok7(6,7)])
  have n: "NOW (clock_upsert three_clocks) = 5000" "NOW (clock_insert three_clocks) = 6000"
    by (simp_all add: NOW_def three_clocks_def)
  from ingestion_clocks[OF r] r show ?thesis
    by (simp add: validate_fields7 n)
qed

text \<open>
  C7 as stated fails: the upsert reads the database clock in second 5, the insert in
  second 6, and the payload of the response carries the server clock at 6250 ms, which is
  the instant of neither row.
\<close>

theorem three_clock_reads:
  "post_location sample_lib three_clocks (JObj fields7) fresh =
     \<lparr>resp = Some (Response 200 (LocationUpdated
          \<lparr>employee_id = 7, latitude = 25 / 2, longitude = 309 / 4, gps_status = On,
           last_update = 6250\<rparr>)),
      srv = \<lparr>db = \<lparr>employee_live_location =
                     [\<lparr>employee_id = 7, latitude = 25 / 2, longitude = 309 / 4,
                       gps_status = On, last_update = 5000\<rparr>],
                   employee_location_history =
                     [\<lparr>employee_id = 7, latitude = 25 / 2, longitude = 309 / 4,
                       gps_status = On, recorded_at = 6000\<rparr>]\<rparr>,
             wss_clients = []\<rparr>,
      sql_log = [BeginTransaction, UpsertLive 7 (25 / 2) (309 / 4) On,
                 InsertHistory 7 (25 / 2) (309 / 4) On, Commit],
      ws_log = []\<rparr>"
  unfolding post_location_ok[OF validate_fields7 ok7(6,7)]
  by (simp add: payload7 statements7 committed_def stored7 logged7 fresh_def empty_store_def
      on_duplicate_key_update_def NOW_def three_clocks_def quiet_def)

section \<open>Reading back an accepted report\<close>

text \<open>
  C2, as the code has it. After a report is answered with status 200, in a state the
  server can reach: every answer of \<open>GET /api/locations\<close> has exactly one row of that
  employee, with the status of the report, and with its latitude and longitude rounded to
  the six fractional digits of the \<open>DECIMAL(10,6)\<close> columns. A history read of that
  employee with a whole limit of at least 1 is not empty, and its first row is the record
  of the report (with the rounded coordinates) whenever every earlier record of the
  employee has a strictly earlier \<open>recorded_at\<close>.
\<close>

theorem submit_then_read:
  fixes lib env req_body st
  defines "d' \<equiv> db (srv (post_location lib env req_body st))"
  assumes r: "reachable lib st"
    and ok: "resp (post_location lib env req_body st) = Some (Response 200 b)"
  shows "\<exists>v. locationSchema_validate lib req_body = Inr v \<and>
     (select_latest d' answer \<and> fst (get_locations answer) = Response 200 (Locations rows)
        \<longrightarrow> filter (\<lambda>r. employee_id r = employee_id v) rows = [stored v (NOW (clock_upsert env))]) \<and>
     (js_Number p = Fin (of_int (employee_id v)) \<and> history_limit q = Fin (of_nat n) \<and> 1 \<le> n
       \<and> select_history d' (js_Number p) (history_limit q) answer'
       \<and> fst (get_history p q answer') = Response 200 (History hs)
       \<and> (\<forall>h \<in> set (employee_location_history (db st)).
             employee_id h = employee_id v \<longrightarrow> recorded_at h < NOW (clock_insert env))
        \<longrightarrow> hs \<noteq> [] \<and> hd hs = logged v (NOW (clock_insert env)))"
proof -
  from ok obtain v stmts d where v: "locationSchema_validate lib req_body = Inr v"
    and t: "transaction env v (db st) = (stmts, Inr d)"
    and p: "srv (post_location lib env req_body st) = st\<lparr>db := d\<rparr>"
    by (auto elim!: post_location_200)
  have d: "d' = \<lparr>employee_live_location =
                 on_duplicate_key_update (stored v (NOW (clock_upsert env)))
                   (employee_live_location (db st)),
               employee_location_history =
                 employee_location_history (db st) @ [logged v (NOW (clock_insert env))]\<rparr>"
    using transaction_Inr[OF t] p by (simp add: d'_def)
  have e: "employee_id (stored v (NOW (clock_upsert env))) = employee_id v"
    by (simp add: stored_def)
  have 1: "filter (\<lambda>r. employee_id r = employee_id v) rows = [stored v (NOW (clock_upsert env))]"
    if "select_latest d' answer" "fst (get_locations answer) = Response 200 (Locations rows)"
  proof -
    have "answer = Inr rows" using that(2) by (rule get_locations_200)
    then have "mset rows = mset (on_duplicate_key_update (stored v (NOW (clock_upsert env)))
                   (employee_live_location (db st)))"
      using that(1) by (simp add: select_latest_def d)
    then show ?thesis
      using filter_upsert[OF reachable_distinct[OF r], of "stored v (NOW (clock_upsert env))"] e
      by (metis filter_permuted)
  qed
  have 2: "hs \<noteq> [] \<and> hd hs = logged v (NOW (clock_insert env))"
    if "js_Number p = Fin (of_int (employee_id v))" "history_limit q = Fin (of_nat n)" "1 \<le> n"
      "select_history d' (js_Number p) (history_limit q) answer'"
      "fst (get_history p q answer') = Response 200 (History hs)"
      "\<forall>h \<in> set (employee_location_history (db st)).
             employee_id h = employee_id v \<longrightarrow> recorded_at h < NOW (clock_insert env)"
  proof -
    have "answer' = Inr hs" using that(5) by (rule get_history_200)
    then show ?thesis
      using that(1,2,3,4,6) select_history_newest[of _ "employee_location_history (db st)" v]
      by (simp add: d)
  qed
  from v 1 2 show ?thesis by blast
qed

theorem submit_then_read_witness:
  "reachable sample_lib after_first
   \<and> resp (post_location sample_lib later (JObj fields7_off) after_first)
       = Some (Response 200 (LocationUpdated (payload_of later report7_off)))
   \<and> locationSchema_validate sample_lib (JObj fields7_off) = Inr report7_off
   \<and> select_latest (db (srv (post_location sample_lib later (JObj fields7_off) after_first)))
        (Inr [stored report7_off 9000])
   \<and> fst (get_locations (Inr [stored report7_off 9000]))
       = Response 200 (Locations [stored report7_off 9000])
   \<and> filter (\<lambda>r. employee_id r = 7) [stored report7_off 9000] = [stored report7_off 9000]
   \<and> js_Number ''7'' = Fin 7
   \<and> history_limit (Some (QString ''10'')) = Fin 10
   \<and> select_history (db (srv (post_location sample_lib later (JObj fields7_off) after_first)))
        (Fin 7) (Fin 10) (Inr [logged report7_off 9000, logged report7 5000])
   \<and> fst (get_history ''7'' (Some (QString ''10'')) (Inr [logged report7_off 9000, logged report7 5000]))
       = Response 200 (History [logged report7_off 9000, logged report7 5000])
   \<and> hd [logged report7_off 9000, logged report7 5000] = logged report7_off 9000"
proof -
  have r: "resp (post_location sample_lib later (JObj fields7_off) after_first)
       = Some (Response 200 (LocationUpdated (payload_of later report7_off)))"
    by (simp add: post_location_ok[OF validate_fields7_off ok7(3,4)])
  have l: "history_limit (Some (QString ''10'')) = Fin 10"
    by (simp add: history_limit_def Number_or_500_def n10)
  have s1: "select_latest (db (srv (post_location sample_lib later (JObj fields7_off) after_first)))
        (Inr [stored report7_off 9000])"
    by (simp add: select_latest_def second_report stored7_off)
  have s2: "select_history (db (srv (post_location sample_lib later (JObj fields7_off) after_first)))
        (Fin 7) (Fin 10) (Inr [logged report7_off 9000, logged report7 5000])"
    by (simp add: select_history_def second_report logged7_off logged7 newest_first_def)
  have g: "fst (get_history ''7'' (Some (QString ''10'')) (Inr [logged report7_off 9000, logged report7 5000]))
       = Response 200 (History [logged report7_off 9000, logged report7 5000])"
    by (simp add: get_history_def n7 falsy_def)
  have e: "employee_id report7_off = 7"
    by (simp add: report7_off_def report7_def)
  from submit_then_read[OF reachable_after_first r, of "Inr [stored report7_off 9000]"
      "[stored report7_off 9000]" "''7''" "Some (QString ''10'')" 10
      "Inr [logged report7_off 9000, logged report7 5000]"
      "[logged report7_off 9000, logged report7 5000]"]
  show ?thesis
    using r l s1 s2 g reachable_after_first
    by (simp add: validate_fields7_off e n7 stored7_off get_locations_def)
qed

text \<open>
  C2 as stated fails twice. A latitude of 12.3456789 is accepted and read back as
  12.345679. And when two reports of one employee are stored within the same second,
  first \<open>on\<close> and then \<open>off\<close>, the order of their records is not fixed by
  \<open>ORDER BY recorded_at DESC\<close>: the history read with limit 1 may answer with the
  \<open>on\<close> record alone.
\<close>

theorem submit_then_read_differs:
  "reachable sample_lib fresh
   \<and> reachable sample_lib after_first
   \<and> resp (post_location sample_lib quiet (JObj fields_fine) fresh)
     = Some (Response 200 (LocationUpdated
         \<lparr>employee_id = 7, latitude = 123456789 / 10000000, longitude = 309 / 4,
          gps_status = On, last_update = 5000\<rparr>))
   \<and> get_locations (Inr (employee_live_location
         (db (srv (post_location sample_lib quiet (JObj fields_fine) fresh)))))
     = (Response 200 (Locations
         [\<lparr>employee_id = 7, latitude = 12345679 / 1000000, longitude = 309 / 4,
           gps_status = On, last_update = 5000\<rparr>]), [SelectLatest])
   \<and> resp (post_location sample_lib quiet (JObj fields7_off) after_first)
     = Some (Response 200 (LocationUpdated
         \<lparr>employee_id = 7, latitude = 25 / 2, longitude = 309 / 4,
          gps_status = Off, last_update = 5000\<rparr>))
   \<and> select_history (db (srv (post_location sample_lib quiet (JObj fields7_off) after_first)))
        (Fin 7) (Fin 1)
        (Inr [\<lparr>employee_id = 7, latitude = 25 / 2, longitude = 309 / 4, gps_status = On,
               recorded_at = 5000\<rparr>])
   \<and> get_history ''7'' (Some (QString ''1''))
        (Inr [\<lparr>employee_id = 7, latitude = 25 / 2, longitude = 309 / 4, gps_status = On,
               recorded_at = 5000\<rparr>])
     = (Response 200 (History
          [\<lparr>employee_id = 7, latitude = 25 / 2, longitude = 309 / 4, gps_status = On,
            recorded_at = 5000\<rparr>]), [SelectHistory (Fin 7) (Fin 1)])"
proof -
  have 1: "post_location sample_lib quiet (JObj fields_fine) fresh =
      \<lparr>resp = Some (Response 200 (LocationUpdated (payload_of quiet report_fine))),
       srv = fresh\<lparr>db := committed quiet report_fine (db fresh)\<rparr>,
       sql_log = statements report_fine, ws_log = []\<rparr>"
    by (simp add: post_location_ok[OF validate_fields_fine ok7(1) ok_fine] fresh_def)
  have 2: "post_location sample_lib quiet (JObj fields7_off) after_first =
      \<lparr>resp = Some (Response 200 (LocationUpdated (payload_of quiet report7_off))),
       srv = after_first\<lparr>db := committed quiet report7_off (db after_first)\<rparr>,
       sql_log = statements report7_off, ws_log = []\<rparr>"
    by (simp add: post_location_ok[OF validate_fields7_off ok7(1,5)] after_first_def)
  have a: "committed quiet report_fine (db fresh) =
      \<lparr>employee_live_location =
         [\<lparr>employee_id = 7, latitude = 12345679 / 1000000, longitude = 309 / 4,
           gps_status = On, last_update = 5000\<rparr>],
       employee_location_history = [logged report_fine 5000]\<rparr>"
    by (simp add: committed_def stored_fine fresh_def empty_store_def
        on_duplicate_key_update_def NOW_def quiet_def)
  have b: "committed quiet report7_off (db after_first) =
      \<lparr>employee_live_location =
         [\<lparr>employee_id = 7, latitude = 25 / 2, longitude = 309 / 4,
           gps_status = Off, last_update = 5000\<rparr>],
       employee_location_history =
         [\<lparr>employee_id = 7, latitude = 25 / 2, longitude = 309 / 4, gps_status = On,
           recorded_at = 5000\<rparr>,
          \<lparr>employee_id = 7, latitude = 25 / 2, longitude = 309 / 4, gps_status = Off,
           recorded_at = 5000\<rparr>]\<rparr>"
    by (simp add: committed_def stored7_off logged7_off after_first_def
        on_duplicate_key_update_def NOW_def quiet_def)
  have c: "payload_of quiet report_fine =
      \<lparr>employee_id = 7, latitude = 123456789 / 10000000, longitude = 309 / 4,
       gps_status = On, last_update = 5000\<rparr>"
    by (simp add: payload_of_def report_fine_def report7_def quiet_def)
  have d: "payload_of quiet report7_off =
      \<lparr>employee_id = 7, latitude = 25 / 2, longitude = 309 / 4,
       gps_status = Off, last_update = 5000\<rparr>"
    by (simp add: payload_of_def report7_off_def report7_def quiet_def)
  have h: "history_limit (Some (QString ''1'')) = Fin 1"
    by (simp add: history_limit_def Number_or_500_def n1)
  have r: "reachable sample_lib fresh"
    unfolding fresh_def by (rule reachable.start)
  show ?thesis
    unfolding 1 2
    by (simp add: a b c d h r reachable_after_first get_locations_def get_history_def n7
        falsy_def select_history_def newest_first_def)
qed

end
